theory Spec2Isabelle
  imports Main
begin

section \<open>JavaScript strings and the regular expressions of the resolver\<close>

text \<open>
  A JavaScript string is a sequence of UTF-16 code units. A code unit is modelled by its
  number; every theorem below holds for all lists of numbers, hence for all strings.
  The source's string literals are ASCII and are written as HOL strings under \<open>js\<close>.
\<close>

type_synonym jstring = "nat list"

definition js :: "string \<Rightarrow> jstring" where
  "js s = map of_char s"

text \<open>
  The two patterns of \<open>getYoutubeVideoId\<close> use literals, character classes, sequence,
  alternation, the greedy quantifiers \<open>*\<close>, \<open>+\<close>, \<open>?\<close>, \<open>{11}\<close> and one capturing
  group. \<open>+\<close>, \<open>?\<close> and \<open>{n}\<close> are written with the other constructors.
\<close>

datatype rx =
    Eps
  | Lit nat
  | Cls "nat \<Rightarrow> bool"
  | Seq rx rx
  | Alt rx rx
  | Star rx
  | Grp rx

definition plus_rx :: "rx \<Rightarrow> rx" where
  "plus_rx r = Seq r (Star r)"

definition opt_rx :: "rx \<Rightarrow> rx" where
  "opt_rx r = Alt r Eps"

fun rep_rx :: "nat \<Rightarrow> rx \<Rightarrow> rx" where
  "rep_rx 0 r = Eps"
| "rep_rx (Suc n) r = Seq r (rep_rx n r)"

fun lit :: "string \<Rightarrow> rx" where
  "lit [] = Eps"
| "lit (c # cs) = Seq (Lit (of_char c)) (lit cs)"

text \<open>
  The backtracking matcher. A matcher state is the rest of the input and the value of
  capture group 1. \<open>rmatch r st\<close> lists every way \<open>r\<close> can match a prefix of the
  input, in the order in which the backtracking engine of JavaScript tries them: the left
  alternative first, one more iteration of a greedy \<open>*\<close> before stopping. An iteration of
  \<open>*\<close> that consumes nothing is rejected, as in the language definition.
\<close>

type_synonym mstate = "jstring \<times> jstring option"

fun rmatch :: "rx \<Rightarrow> mstate \<Rightarrow> mstate list" where
  "rmatch Eps st = [st]"
| "rmatch (Lit c) (s, k) =
     (case s of [] \<Rightarrow> [] | x # xs \<Rightarrow> if x = c then [(xs, k)] else [])"
| "rmatch (Cls p) (s, k) =
     (case s of [] \<Rightarrow> [] | x # xs \<Rightarrow> if p x then [(xs, k)] else [])"
| "rmatch (Seq a b) st = concat (map (rmatch b) (rmatch a st))"
| "rmatch (Alt a b) st = rmatch a st @ rmatch b st"
| "rmatch (Star a) (s, k) =
     concat (map (\<lambda>(s', k'). if length s' < length s then rmatch (Star a) (s', k') else [])
                 (rmatch a (s, k)))
     @ [(s, k)]"
| "rmatch (Grp a) (s, k) =
     map (\<lambda>(s', k'). (s', Some (take (length s - length s') s))) (rmatch a (s, k))"

text \<open>
  \<open>String.prototype.match\<close> with a pattern without flags: the first start position,
  from the left, at which the pattern matches; there, the first way the engine finds.
  \<open>None\<close> is \<open>null\<close>; \<open>Some k\<close> is a match whose element 1 is \<open>k\<close>
  (\<open>None\<close> is \<open>undefined\<close>).
\<close>

fun exec :: "rx \<Rightarrow> jstring \<Rightarrow> jstring option option" where
  "exec r [] = (case rmatch r ([], None) of [] \<Rightarrow> None | (s', k) # _ \<Rightarrow> Some k)"
| "exec r (x # xs) =
     (case rmatch r (x # xs, None) of [] \<Rightarrow> exec r xs | (s', k) # _ \<Rightarrow> Some k)"

subsection \<open>Character classes\<close>

definition is_space :: "nat \<Rightarrow> bool" where
  "is_space c \<longleftrightarrow>
     c \<in> {9, 10, 11, 12, 13, 32, 160, 5760, 8232, 8233, 8239, 8287, 12288, 65279}
     \<or> (8192 \<le> c \<and> c \<le> 8202)"

definition not_space :: "nat \<Rightarrow> bool" where
  "not_space c \<longleftrightarrow> \<not> is_space c"

definition not_slash_space :: "nat \<Rightarrow> bool" where
  "not_slash_space c \<longleftrightarrow> c \<noteq> 47 \<and> c \<noteq> 10 \<and> \<not> is_space c"

definition dot :: "nat \<Rightarrow> bool" where
  "dot c \<longleftrightarrow> c \<notin> {10, 13, 8232, 8233}"

definition qmark_amp :: "nat \<Rightarrow> bool" where
  "qmark_amp c \<longleftrightarrow> c = 63 \<or> c = 38"

definition idchar :: "nat \<Rightarrow> bool" where
  "idchar c \<longleftrightarrow>
     (97 \<le> c \<and> c \<le> 122) \<or> (65 \<le> c \<and> c \<le> 90) \<or> (48 \<le> c \<and> c \<le> 57) \<or> c = 95 \<or> c = 45"

subsection \<open>getYoutubeVideoId\<close>

definition token :: rx where
  "token = Grp (rep_rx 11 (Cls idchar))"

definition youtubeRegex :: rx where
  "youtubeRegex =
     Seq (Alt (Seq (lit ''youtube.com/'')
                   (Alt (Seq (plus_rx (Cls not_slash_space))
                             (Seq (lit ''/'') (Seq (plus_rx (Cls not_space)) (lit ''/''))))
                   (Alt (Seq (Alt (lit ''v'') (Seq (lit ''e'') (opt_rx (lit ''mbed'')))) (lit ''/''))
                        (Seq (Star (Cls dot)) (Seq (Cls qmark_amp) (lit ''v=''))))))
              (lit ''youtu.be/''))
         token"

definition shortsRegex :: rx where
  "shortsRegex = Seq (lit ''youtube.com/shorts/'') token"

definition getYoutubeVideoId :: "jstring \<Rightarrow> jstring" where
  "getYoutubeVideoId url =
     (let match = exec youtubeRegex url;
          shortsMatch = exec shortsRegex url
      in case match of
           Some (Some m) \<Rightarrow>
             if m \<noteq> [] then m
             else (case shortsMatch of Some (Some sm) \<Rightarrow> sm | _ \<Rightarrow> [])
         | _ \<Rightarrow> (case shortsMatch of Some (Some sm) \<Rightarrow> sm | _ \<Rightarrow> []))"

definition getYoutubeThumbnailUrl :: "jstring \<Rightarrow> jstring" where
  "getYoutubeThumbnailUrl videoId =
     (if videoId = [] then []
      else js ''https://img.youtube.com/vi/'' @ videoId @ js ''/hqdefault.jpg'')"

section \<open>The add-recipe form (AddRecipeModal)\<close>

text \<open>
  The state of one mounted \<open>AddRecipeModal\<close>, from its mounting to its unmounting: the
  seven \<open>useState\<close> variables of the component, and what the browser holds for it: the clock (milliseconds), the pending
  \<open>setTimeout\<close> callbacks (handle, due time, the \<open>youtubeUrl\<close> their closure captured),
  the handle that the cleanup of the latest effect run will clear, the log of the calls
  to \<open>fetch\<close> (the video identifier of each request, in order of issue), and the requests
  whose promise has not settled yet (indices into the log).
\<close>

record modal =
  youtubeUrl :: jstring
  thumbnailUrl :: jstring
  videoTitle :: jstring
  selectedTags :: "jstring list"
  isValidUrl :: bool
  isLoadingThumbnail :: bool
  isFetchingTitle :: bool
  now :: nat
  timers :: "(nat \<times> nat \<times> jstring) list"
  handler :: "nat option"
  nextHandle :: nat
  requests :: "jstring list"
  pending :: "nat list"

text \<open>
  How a title request ends: the promise of \<open>fetch\<close> or of \<open>response.json()\<close> rejects,
  or the body parses to \<open>data\<close>; then \<open>Json None\<close> is a body without \<open>items\<close> (the
  body of an error status is one) and \<open>Json (Some ts)\<close> a body whose \<open>items\<close> carry the
  snippet titles \<open>ts\<close>. Anything thrown inside the \<open>try\<close> block ends in its
  \<open>catch\<close>, as a rejection does.
\<close>

datatype outcome = Rejected | Json "jstring list option"

definition truthy :: "jstring option \<Rightarrow> bool" where
  "truthy v \<longleftrightarrow> (case v of None \<Rightarrow> False | Some x \<Rightarrow> x \<noteq> [])"

text \<open>The body of the \<open>setTimeout\<close> callback up to its first \<open>await\<close>.\<close>

definition callback :: "jstring option \<Rightarrow> jstring \<Rightarrow> modal \<Rightarrow> modal" where
  "callback YOUTUBE_API_KEY url m =
     (let videoId = getYoutubeVideoId url in
      if videoId \<noteq> [] then
        (let m1 = m\<lparr>thumbnailUrl := getYoutubeThumbnailUrl videoId,
                    isValidUrl := True,
                    isLoadingThumbnail := False\<rparr>
         in if truthy YOUTUBE_API_KEY then
              m1\<lparr>isFetchingTitle := True,
                  requests := requests m1 @ [videoId],
                  pending := pending m1 @ [length (requests m1)]\<rparr>
            else m1\<lparr>videoTitle := js ''Untitled Recipe (API Key missing)''\<rparr>)
      else m\<lparr>thumbnailUrl := [],
             videoTitle := [],
             isValidUrl := False,
             isLoadingThumbnail := False,
             isFetchingTitle := False\<rparr>)"

text \<open>The rest of the callback, run when request \<open>i\<close> settles with outcome \<open>r\<close>.\<close>

definition titleOf :: "outcome \<Rightarrow> jstring" where
  "titleOf r =
     (case r of
        Json (Some (t # ts)) \<Rightarrow> t
      | Json _ \<Rightarrow> js ''Untitled Recipe (Video not found or private)''
      | Rejected \<Rightarrow> js ''Untitled Recipe (Error fetching title)'')"

definition resolve :: "nat \<Rightarrow> outcome \<Rightarrow> modal \<Rightarrow> modal" where
  "resolve i r m =
     (if i \<in> set (pending m) then
        m\<lparr>pending := removeAll i (pending m),
           videoTitle := titleOf r,
           isFetchingTitle := False\<rparr>
      else m)"

text \<open>
  The effect on \<open>youtubeUrl\<close>: its cleanup, and its body. An edit of the input calls
  \<open>setYoutubeUrl\<close>; when the value differs from the state, the component renders again,
  the cleanup of the previous effect run is executed and then the effect.
\<close>

definition cleanup :: "modal \<Rightarrow> modal" where
  "cleanup m =
     (case handler m of
        None \<Rightarrow> m
      | Some h \<Rightarrow> m\<lparr>timers := filter (\<lambda>(h', due, url). h' \<noteq> h) (timers m),
                     isLoadingThumbnail := False,
                     isFetchingTitle := False\<rparr>)"

definition effect :: "modal \<Rightarrow> modal" where
  "effect m =
     (let h = nextHandle m;
          m1 = m\<lparr>timers := timers m @ [(h, now m + 500, youtubeUrl m)],
                  nextHandle := h + 1,
                  handler := Some h\<rparr>;
          m2 = (if youtubeUrl m \<noteq> []
                then m1\<lparr>isLoadingThumbnail := True, isFetchingTitle := True\<rparr>
                else m1)
      in m2\<lparr>videoTitle := []\<rparr>)"

definition edit :: "jstring \<Rightarrow> modal \<Rightarrow> modal" where
  "edit url m = (if url = youtubeUrl m then m else effect (cleanup (m\<lparr>youtubeUrl := url\<rparr>)))"

text \<open>
  \<open>d\<close> milliseconds pass: the callbacks that are due run, in the order they were set.
  Every callback is set with the same delay, so that is the order in which they are due.
\<close>

definition wait :: "jstring option \<Rightarrow> nat \<Rightarrow> modal \<Rightarrow> modal" where
  "wait key d m =
     (let t = now m + d;
          due = filter (\<lambda>(h, at, url). at \<le> t) (timers m);
          m1 = m\<lparr>now := t, timers := filter (\<lambda>(h, at, url). \<not> at \<le> t) (timers m)\<rparr>
      in fold (\<lambda>(h, at, url). callback key url) due m1)"

text \<open>The component when it has mounted: the initial values, then the first effect run.\<close>

definition mount :: modal where
  "mount = effect \<lparr>youtubeUrl = [], thumbnailUrl = [], videoTitle = [], selectedTags = [],
                   isValidUrl = False, isLoadingThumbnail = False, isFetchingTitle = False,
                   now = 0, timers = [], handler = None, nextHandle = 0,
                   requests = [], pending = []\<rparr>"

datatype event = Edit jstring | Wait nat | Resolve nat outcome

fun step :: "jstring option \<Rightarrow> event \<Rightarrow> modal \<Rightarrow> modal" where
  "step key (Edit url) m = edit url m"
| "step key (Wait d) m = wait key d m"
| "step key (Resolve i r) m = resolve i r m"

definition run :: "jstring option \<Rightarrow> event list \<Rightarrow> modal \<Rightarrow> modal" where
  "run key evs m = fold (step key) evs m"

text \<open>
  A burst of edits: the first one, then each further one \<open>d\<close> milliseconds after the one
  before it.
\<close>

definition burst :: "jstring \<Rightarrow> (nat \<times> jstring) list \<Rightarrow> event list" where
  "burst u rest = Edit u # concat (map (\<lambda>(d, v). [Wait d, Edit v]) rest)"

text \<open>
  Properties of the states that the mounted component reaches, used in the proofs: the
  effect has run, a pending callback is always the one of the latest effect run, and an
  unsettled request is one of the log. \<open>armed R u m\<close> is the state right after an edit
  to \<open>u\<close>: one callback, due in 500 ms, for \<open>u\<close>, with the log at \<open>R\<close>.
  \<open>changes p us\<close> says that each value of \<open>us\<close> differs from the one before it,
  \<open>p\<close> being the value before the first: an edit is a change of the input.
\<close>

definition well_formed :: "modal \<Rightarrow> bool" where
  "well_formed m \<longleftrightarrow>
     handler m \<noteq> None \<and>
     list_all (\<lambda>(h, due, url). handler m = Some h) (timers m) \<and>
     list_all (\<lambda>i. i < length (requests m)) (pending m)"

definition armed :: "jstring list \<Rightarrow> jstring \<Rightarrow> modal \<Rightarrow> bool" where
  "armed R u m \<longleftrightarrow>
     timers m = [(nextHandle m - 1, now m + 500, u)] \<and> handler m = Some (nextHandle m - 1) \<and>
     youtubeUrl m = u \<and> requests m = R"

fun changes :: "jstring \<Rightarrow> jstring list \<Rightarrow> bool" where
  "changes p [] = True"
| "changes p (u # us) = (u \<noteq> p \<and> changes u us)"

subsection \<open>Submission\<close>

definition handleTagChange :: "jstring \<Rightarrow> modal \<Rightarrow> modal" where
  "handleTagChange tag m =
     m\<lparr>selectedTags :=
         (if tag \<in> set (selectedTags m) then filter (\<lambda>t. t \<noteq> tag) (selectedTags m)
          else selectedTags m @ [tag])\<rparr>"

record recipe =
  r_youtubeUrl :: jstring
  r_videoId :: jstring
  r_thumbnailUrl :: jstring
  r_title :: jstring
  r_tags :: "jstring list"

definition categories :: "jstring list" where
  "categories = [js ''Breakfast'', js ''Lunch'', js ''Snacks'', js ''Dinner'', js ''Late-night'']"

text \<open>\<open>handleSubmit\<close>: the record passed to \<open>onAddRecipe\<close>, or \<open>None\<close> when nothing is passed.\<close>

definition handleSubmit :: "modal \<Rightarrow> recipe option" where
  "handleSubmit m =
     (let videoId = getYoutubeVideoId (youtubeUrl m) in
      if isValidUrl m \<and> videoId \<noteq> [] then
        Some \<lparr>r_youtubeUrl = youtubeUrl m,
              r_videoId = videoId,
              r_thumbnailUrl = thumbnailUrl m,
              r_title = (if videoTitle m \<noteq> [] then videoTitle m else js ''Untitled Recipe''),
              r_tags = (if length (selectedTags m) > 0 then selectedTags m else categories)\<rparr>
      else None)"

section \<open>The application and its backend\<close>

text \<open>
  The state of \<open>App\<close> that the handlers read and write, and the two backend paths: the
  recipe collection, as the list of its documents (document id, fields) in query order,
  and the grocery document (\<open>None\<close> when it does not exist), a map from field names to
  values.
\<close>

record app =
  isAuthReady :: bool
  toastMessage :: jstring
  showToast :: bool
  groceryText :: jstring
  isGroceryListEditing :: bool

record firestore =
  recipesColl :: "(jstring \<times> recipe) list"
  groceryDoc :: "(string \<rightharpoonup> jstring) option"

text \<open>\<open>showActionToast\<close> shows the message; the timer that hides it after three seconds is left out.\<close>

definition showActionToast :: "jstring \<Rightarrow> app \<Rightarrow> app" where
  "showActionToast message a = a\<lparr>toastMessage := message, showToast := True\<rparr>"

text \<open>
  Each handler awaits backend calls; whether a call resolves or rejects is an input of
  the model (\<open>True\<close>: it resolves). \<open>addDoc\<close> resolves with the id the backend gave the
  new document and the place the document takes in query order.
\<close>

definition handleAddRecipe :: "(jstring \<times> nat) option \<Rightarrow> recipe \<Rightarrow> app \<times> firestore \<Rightarrow> app \<times> firestore" where
  "handleAddRecipe addDoc newRecipe = (\<lambda>(a, db).
     if \<not> isAuthReady a then
       (showActionToast (js ''Application is loading. Please wait for authentication.'') a, db)
     else
       (case addDoc of
          Some (newId, pos) \<Rightarrow>
            (showActionToast (js ''Recipe Added!'') a,
             db\<lparr>recipesColl := take pos (recipesColl db) @ [(newId, newRecipe)]
                                 @ drop pos (recipesColl db)\<rparr>)
        | None \<Rightarrow> (showActionToast (js ''Failed to add recipe. Please check console.'') a, db)))"

definition handleDeleteRecipe :: "bool \<Rightarrow> bool \<Rightarrow> jstring \<Rightarrow> app \<times> firestore \<Rightarrow> app \<times> firestore" where
  "handleDeleteRecipe getDocs deleteDoc videoIdToDelete = (\<lambda>(a, db).
     if \<not> isAuthReady a then
       (showActionToast (js ''Application is loading. Cannot delete.'') a, db)
     else if \<not> getDocs then
       (showActionToast (js ''Failed to delete recipe. Please check console.'') a, db)
     else
       (case filter (\<lambda>d. r_videoId (snd d) = videoIdToDelete) (recipesColl db) of
          docToDelete # _ \<Rightarrow>
            if deleteDoc then
              (showActionToast (js ''Recipe Deleted!'') a,
               db\<lparr>recipesColl := filter (\<lambda>d. fst d \<noteq> fst docToDelete) (recipesColl db)\<rparr>)
            else
              (showActionToast (js ''Failed to delete recipe. Please check console.'') a, db)
        | [] \<Rightarrow> (showActionToast (js ''Recipe not found!'') a, db)))"

definition handleSaveGroceryList :: "bool \<Rightarrow> app \<times> firestore \<Rightarrow> app \<times> firestore" where
  "handleSaveGroceryList setDoc = (\<lambda>(a, db).
     if \<not> isAuthReady a then
       (showActionToast (js ''Application is loading. Cannot save.'') a, db)
     else if setDoc then
       (showActionToast (js ''Grocery List Saved!'') (a\<lparr>isGroceryListEditing := False\<rparr>),
        db\<lparr>groceryDoc :=
             Some ((case groceryDoc db of None \<Rightarrow> Map.empty | Some flds \<Rightarrow> flds)
                     (''content'' \<mapsto> groceryText a))\<rparr>)
     else
       (showActionToast (js ''Failed to save grocery list. Please check console.'') a, db))"

text \<open>The \<open>onSnapshot\<close> callback of the grocery document, given the delivered snapshot.\<close>

definition onGrocerySnapshot :: "(string \<rightharpoonup> jstring) option \<Rightarrow> app \<Rightarrow> app" where
  "onGrocerySnapshot docSnap a =
     (case docSnap of
        Some flds \<Rightarrow>
          a\<lparr>groceryText := (case flds ''content'' of None \<Rightarrow> [] | Some c \<Rightarrow> c)\<rparr>
      | None \<Rightarrow> a\<lparr>groceryText := []\<rparr>)"

section \<open>Properties of the matcher\<close>

declare rmatch.simps(6) [simp del]

lemma rmatch_Star_mem:
  "x \<in> set (rmatch (Star a) (s, k)) \<longleftrightarrow>
     x = (s, k) \<or> (\<exists>s1 k1. (s1, k1) \<in> set (rmatch a (s, k)) \<and> length s1 < length s
                      \<and> x \<in> set (rmatch (Star a) (s1, k1)))"
  by (subst rmatch.simps(6)) (auto split: if_splits)

text \<open>A match consumes a prefix of the input: what is left is a suffix of it.\<close>

lemma rmatch_suffix:
  "(s', k') \<in> set (rmatch r (s, k)) \<Longrightarrow> \<exists>p. s = p @ s'"
proof (induction r "(s, k)" arbitrary: s k s' k' rule: rmatch.induct)
  case 1
  then show ?case by simp
next
  case (2 c s k)
  then show ?case by (auto split: list.splits if_splits)
next
  case (3 p s k)
  then show ?case by (auto split: list.splits if_splits)
next
  case (4 a b s k)
  then obtain s1 k1 where m1: "(s1, k1) \<in> set (rmatch a (s, k))"
    and m2: "(s', k') \<in> set (rmatch b (s1, k1))" by auto
  from "4.hyps"(1)[OF m1] obtain p where p: "s = p @ s1" by blast
  from "4.hyps"(2)[OF m1 m2] obtain q where "s1 = q @ s'" by blast
  with p show ?case by simp
next
  case (5 a b s k)
  then show ?case by auto
next
  case (6 a s k)
  from "6.prems" consider "(s', k') = (s, k)"
    | s1 k1 where "(s1, k1) \<in> set (rmatch a (s, k))" "length s1 < length s"
        "(s', k') \<in> set (rmatch (Star a) (s1, k1))"
    using rmatch_Star_mem[of "(s', k')" a s k] by blast
  then show ?case
  proof cases
    case 1
    then show ?thesis by simp
  next
    case 2
    from "6.hyps"(1)[OF 2(1)] obtain p where p: "s = p @ s1" by blast
    from "6.hyps"(2)[OF 2(1) _ 2(2) 2(3)] obtain q where "s1 = q @ s'" by blast
    with p show ?thesis by simp
  qed
next
  case (7 a s k)
  then show ?case by auto
qed

text \<open>Closed forms of the matcher on a literal, on \<open>{n}\<close> of a class and on the token group.\<close>

lemma rmatch_lit:
  "rmatch (lit w) (s, k) = (if take (length w) s = js w then [(drop (length w) s, k)] else [])"
proof (induction w arbitrary: s)
  case Nil
  then show ?case by (simp add: js_def)
next
  case (Cons c w)
  then show ?case by (cases s) (auto simp: js_def)
qed

lemma rmatch_rep_cls:
  "rmatch (rep_rx n (Cls p)) (s, k) =
     (if n \<le> length s \<and> list_all p (take n s) then [(drop n s, k)] else [])"
proof (induction n arbitrary: s)
  case 0
  then show ?case by simp
next
  case (Suc n)
  then show ?case by (cases s) auto
qed

lemma rmatch_token:
  "rmatch token (s, k) =
     (if 11 \<le> length s \<and> list_all idchar (take 11 s)
      then [(drop 11 s, Some (take 11 s))] else [])"
  by (simp add: token_def rmatch_rep_cls)

lemma rmatch_Star_Cls_Nil:
  "rmatch (Star (Cls p)) ([], k) = [([], k)]"
  by (simp add: rmatch.simps(6))

lemma rmatch_Star_Cls_Cons:
  "rmatch (Star (Cls p)) (x # xs, k) =
     (if p x then rmatch (Star (Cls p)) (xs, k) else []) @ [(x # xs, k)]"
  by (simp add: rmatch.simps(6))

declare lit.simps [simp del]

lemmas resolver_eval =
  rmatch_lit rmatch_token rmatch_Star_Cls_Nil rmatch_Star_Cls_Cons
  getYoutubeVideoId_def youtubeRegex_def shortsRegex_def js_def plus_rx_def opt_rx_def
  is_space_def not_space_def not_slash_space_def dot_def qmark_amp_def idchar_def

text \<open>Every match of a pattern that ends in the token group sets capture 1 to a token.\<close>

lemma rmatch_Seq_token_cap:
  assumes "(s', k') \<in> set (rmatch (Seq a token) st)"
  shows "\<exists>c. k' = Some c \<and> length c = 11 \<and> list_all idchar c"
proof -
  from assms obtain s1 k1 where "(s', k') \<in> set (rmatch token (s1, k1))"
    by auto
  then show ?thesis
    by (auto simp: rmatch_token split: if_splits)
qed

lemma exec_Seq_token:
  "exec (Seq a token) url = Some k \<Longrightarrow> \<exists>c. k = Some c \<and> length c = 11 \<and> list_all idchar c"
proof (induction url)
  case Nil
  then obtain s' where "(s', k) \<in> set (rmatch (Seq a token) ([], None))"
    by (auto simp del: rmatch.simps split: list.splits)
  then show ?case by (rule rmatch_Seq_token_cap)
next
  case (Cons x xs)
  show ?case
  proof (cases "rmatch (Seq a token) (x # xs, None)")
    case Nil
    with Cons show ?thesis by (simp del: rmatch.simps)
  next
    case (Cons r rs)
    with Cons.prems have "(fst r, k) \<in> set (rmatch (Seq a token) (x # xs, None))"
      by (cases r) (simp del: rmatch.simps)
    then show ?thesis by (rule rmatch_Seq_token_cap)
  qed
qed

lemma exec_youtubeRegex_token:
  "exec youtubeRegex url = Some k \<Longrightarrow> \<exists>c. k = Some c \<and> length c = 11 \<and> list_all idchar c"
  unfolding youtubeRegex_def by (rule exec_Seq_token)

lemma exec_shortsRegex_token:
  "exec shortsRegex url = Some k \<Longrightarrow> \<exists>c. k = Some c \<and> length c = 11 \<and> list_all idchar c"
  unfolding shortsRegex_def by (rule exec_Seq_token)

lemma getYoutubeVideoId_token:
  "getYoutubeVideoId url = [] \<or>
   (length (getYoutubeVideoId url) = 11 \<and> list_all idchar (getYoutubeVideoId url))"
  unfolding getYoutubeVideoId_def Let_def
  using exec_youtubeRegex_token[of url] exec_shortsRegex_token[of url]
  by (auto split: option.splits)

lemma idchar_alphabet:
  "idchar c \<Longrightarrow>
   c \<in> set (js ''ABCDEFGHIJKLMNOPQRSTUVWXYZabcdefghijklmnopqrstuvwxyz0123456789_-'')"
  unfolding idchar_def js_def by simp arith

text \<open>The long forms of a link, for any token.\<close>

lemma rmatch_Seq_Nil:
  assumes "\<And>p s' k'. s = p @ s' \<Longrightarrow> rmatch b (s', k') = []"
  shows "rmatch (Seq a b) (s, k) = []"
proof -
  have "rmatch b x = []" if "x \<in> set (rmatch a (s, k))" for x
  proof -
    obtain s' k' where x: "x = (s', k')" by (cases x)
    with that rmatch_suffix[of s' k' a s k] obtain p where "s = p @ s'" by blast
    with assms x show ?thesis by blast
  qed
  then show ?thesis by simp
qed

lemma rmatch_no_slash:
  assumes "47 \<notin> set s"
  shows "rmatch (Seq a (Seq (lit ''/'') x)) (s, k) = []"
proof (rule rmatch_Seq_Nil)
  fix p s' k'
  assume "s = p @ s'"
  with assms have "47 \<notin> set s'" by simp
  then have "rmatch (lit ''/'') (s', k') = []"
    by (cases s') (auto simp: rmatch_lit js_def)
  then show "rmatch (Seq (lit ''/'') x) (s', k') = []" by simp
qed

lemma rmatch_no_qmark_amp:
  assumes "list_all idchar t"
  shows "concat (map (rmatch (Seq (Cls qmark_amp) x)) (rmatch (Star (Cls dot)) (t, k))) = []"
proof -
  have "rmatch (Seq (Star (Cls dot)) (Seq (Cls qmark_amp) x)) (t, k) = []"
  proof (rule rmatch_Seq_Nil)
    fix p s' k'
    assume "t = p @ s'"
    with assms have "list_all idchar s'" by simp
    then have "rmatch (Cls qmark_amp) (s', k') = []"
      by (cases s') (auto simp: idchar_def qmark_amp_def)
    then show "rmatch (Seq (Cls qmark_amp) x) (s', k') = []" by simp
  qed
  then show ?thesis by simp
qed

lemma idchar_not_slash: "list_all idchar t \<Longrightarrow> 47 \<notin> set t"
  by (auto simp: list_all_iff idchar_def)

lemma rmatch_token_exact:
  "length t = 11 \<Longrightarrow> list_all idchar t \<Longrightarrow> rmatch token (t, k) = [([], Some t)]"
  by (simp add: rmatch_token)

lemma exec_youtu_be:
  assumes "length t = 11" "list_all idchar t"
  shows "exec youtubeRegex (js ''youtu.be/'' @ t) = Some (Some t)"
proof -
  have "rmatch youtubeRegex (js ''youtu.be/'' @ t, None) = [([], Some t)]"
    by (simp add: youtubeRegex_def rmatch_lit js_def rmatch_token_exact assms)
  then show ?thesis by (simp add: js_def)
qed

lemma exec_watch:
  assumes "length t = 11" "list_all idchar t"
  shows "exec youtubeRegex (js ''youtube.com/watch?v='' @ t) = Some (Some t)"
proof -
  define s1 where "s1 = js ''watch?v='' @ t"
  define A1 where "A1 = Seq (plus_rx (Cls not_slash_space))
                          (Seq (lit ''/'') (Seq (plus_rx (Cls not_space)) (lit ''/'')))"
  define A2 where "A2 = Seq (Alt (lit ''v'') (Seq (lit ''e'') (opt_rx (lit ''mbed'')))) (lit ''/'')"
  define A3 where "A3 = Seq (Star (Cls dot)) (Seq (Cls qmark_amp) (lit ''v=''))"
  have yr: "youtubeRegex =
      Seq (Alt (Seq (lit ''youtube.com/'') (Alt A1 (Alt A2 A3))) (lit ''youtu.be/'')) token"
    by (simp add: youtubeRegex_def A1_def A2_def A3_def)
  have l0: "rmatch (lit ''youtube.com/'') (js ''youtube.com/watch?v='' @ t, None) = [(s1, None)]"
    by (simp add: rmatch_lit js_def s1_def)
  have l1: "rmatch (lit ''youtu.be/'') (js ''youtube.com/watch?v='' @ t, None) = []"
    by (simp add: rmatch_lit js_def)
  have "47 \<notin> set s1"
    using idchar_not_slash[OF assms(2)] by (simp add: s1_def js_def)
  then have a1: "rmatch A1 (s1, None) = []"
    unfolding A1_def by (rule rmatch_no_slash)
  have a2: "rmatch A2 (s1, None) = []"
    by (simp add: A2_def s1_def rmatch_lit js_def opt_rx_def)
  have a3: "rmatch A3 (s1, None) = [(t, None)]"
    by (simp add: A3_def s1_def js_def rmatch_Star_Cls_Cons rmatch_no_qmark_amp[OF assms(2)]
        rmatch_lit dot_def qmark_amp_def)
  have "rmatch youtubeRegex (js ''youtube.com/watch?v='' @ t, None) = [([], Some t)]"
    unfolding yr by (simp add: l0 l1 a1 a2 a3 rmatch_token_exact assms)
  then show ?thesis by (simp add: js_def)
qed

text \<open>
  A short-form link as the site gives it: the general pattern does not match it, the
  short-form pattern captures its token.
\<close>

lemma rmatch_no_slash_end:
  assumes "47 \<notin> set s"
  shows "rmatch (Seq a (lit ''/'')) (s, k) = []"
proof (rule rmatch_Seq_Nil)
  fix p s' k'
  assume "s = p @ s'"
  with assms have "47 \<notin> set s'" by simp
  then show "rmatch (lit ''/'') (s', k') = []"
    by (cases s') (auto simp: rmatch_lit js_def)
qed

lemma youtubeRegex_needs_y:
  "x \<noteq> 121 \<Longrightarrow> rmatch youtubeRegex (x # xs, None) = []"
  by (simp add: youtubeRegex_def rmatch_lit js_def)

lemma shortsRegex_needs_y:
  "x \<noteq> 121 \<Longrightarrow> rmatch shortsRegex (x # xs, None) = []"
  by (simp add: shortsRegex_def rmatch_lit js_def)

lemma rmatch_lit_needs:
  assumes "c \<in> set (js w)" and "c \<notin> set s"
  shows "rmatch (lit w) (s, k) = []"
proof -
  have "take (length w) s \<noteq> js w"
  proof
    assume "take (length w) s = js w"
    with assms(1) have "c \<in> set (take (length w) s)" by simp
    then have "c \<in> set s" by (rule in_set_takeD)
    with assms(2) show False by simp
  qed
  then show ?thesis by (simp add: rmatch_lit)
qed

lemma idchar_not_dot: "list_all idchar t \<Longrightarrow> 46 \<notin> set t"
  by (auto simp: list_all_iff idchar_def)

lemma youtubeRegex_token_only:
  assumes "list_all idchar s"
  shows "rmatch youtubeRegex (s, None) = []"
proof -
  have d: "46 \<notin> set s"
    using assms by (rule idchar_not_dot)
  have "rmatch (lit ''youtube.com/'') (s, None) = []"
    by (rule rmatch_lit_needs[of 46]) (simp_all add: js_def d)
  moreover have "rmatch (lit ''youtu.be/'') (s, None) = []"
    by (rule rmatch_lit_needs[of 46]) (simp_all add: js_def d)
  ultimately show ?thesis
    by (simp add: youtubeRegex_def)
qed

lemma exec_youtubeRegex_token_only:
  "list_all idchar s \<Longrightarrow> exec youtubeRegex s = None"
proof (induction s)
  case Nil
  then show ?case
    using youtubeRegex_token_only[of "[]"] by simp
next
  case (Cons x xs)
  then show ?case
    using youtubeRegex_token_only[of "x # xs"] by simp
qed

lemma youtubeRegex_at_shorts:
  assumes "length t = 11" "list_all idchar t"
  shows "rmatch youtubeRegex (js ''youtube.com/shorts/'' @ t, None) = []"
proof -
  define s1 where "s1 = js ''shorts/'' @ t"
  define A1 where "A1 = Seq (plus_rx (Cls not_slash_space))
                          (Seq (lit ''/'') (Seq (plus_rx (Cls not_space)) (lit ''/'')))"
  define A2 where "A2 = Seq (Alt (lit ''v'') (Seq (lit ''e'') (opt_rx (lit ''mbed'')))) (lit ''/'')"
  define A3 where "A3 = Seq (Star (Cls dot)) (Seq (Cls qmark_amp) (lit ''v=''))"
  have yr: "youtubeRegex =
      Seq (Alt (Seq (lit ''youtube.com/'') (Alt A1 (Alt A2 A3))) (lit ''youtu.be/'')) token"
    by (simp add: youtubeRegex_def A1_def A2_def A3_def)
  have l0: "rmatch (lit ''youtube.com/'') (js ''youtube.com/shorts/'' @ t, None) = [(s1, None)]"
    by (simp add: rmatch_lit js_def s1_def)
  have l1: "rmatch (lit ''youtu.be/'') (js ''youtube.com/shorts/'' @ t, None) = []"
    by (simp add: rmatch_lit js_def)
  have ns: "47 \<notin> set t"
    using assms(2) by (rule idchar_not_slash)
  have tail: "rmatch (Seq (plus_rx (Cls not_space)) (lit ''/'')) (t, None) = []"
    using ns by (rule rmatch_no_slash_end)
  have a1: "rmatch A1 (s1, None) = []"
    by (simp add: A1_def s1_def js_def plus_rx_def rmatch_Star_Cls_Cons rmatch_lit
        not_slash_space_def is_space_def tail[unfolded plus_rx_def, simplified])
  have a2: "rmatch A2 (s1, None) = []"
    by (simp add: A2_def s1_def rmatch_lit js_def opt_rx_def)
  have a3: "rmatch A3 (s1, None) = []"
    by (simp add: A3_def s1_def js_def rmatch_Star_Cls_Cons rmatch_no_qmark_amp[OF assms(2)]
        rmatch_lit dot_def qmark_amp_def)
  show ?thesis
    unfolding yr by (simp add: l0 l1 a1 a2 a3)
qed

lemma exec_youtubeRegex_shorts_url:
  assumes "length t = 11" "list_all idchar t"
  shows "exec youtubeRegex (js ''https://www.youtube.com/shorts/'' @ t) = None"
  by (simp add: js_def youtubeRegex_needs_y youtubeRegex_at_shorts[OF assms, unfolded js_def, simplified]
      exec_youtubeRegex_token_only[OF assms(2)])

lemma exec_shortsRegex_shorts_url:
  assumes "length t = 11" "list_all idchar t"
  shows "exec shortsRegex (js ''https://www.youtube.com/shorts/'' @ t) = Some (Some t)"
proof -
  have "rmatch shortsRegex (js ''youtube.com/shorts/'' @ t, None) = [([], Some t)]"
    by (simp add: shortsRegex_def rmatch_lit js_def rmatch_token_exact assms)
  then show ?thesis
    by (simp add: js_def shortsRegex_needs_y)
qed

lemma getYoutubeVideoId_shorts_url:
  assumes "length t = 11" "list_all idchar t"
  shows "getYoutubeVideoId (js ''https://www.youtube.com/shorts/'' @ t) = t"
  by (simp add: getYoutubeVideoId_def exec_youtubeRegex_shorts_url[OF assms]
      exec_shortsRegex_shorts_url[OF assms])

section \<open>The identifier is empty or a token\<close>

text \<open>
  Claim C10. \<open>getYoutubeVideoId\<close> is a total function of its input string, and its result
  is either the empty string or a string of exactly 11 code units, each one of
  \<open>A-Z\<close>, \<open>a-z\<close>, \<open>0-9\<close>, underscore and hyphen.
\<close>

theorem getYoutubeVideoId_range:
  "getYoutubeVideoId url = [] \<or>
   (length (getYoutubeVideoId url) = 11 \<and>
    set (getYoutubeVideoId url)
      \<subseteq> set (js ''ABCDEFGHIJKLMNOPQRSTUVWXYZabcdefghijklmnopqrstuvwxyz0123456789_-''))"
  using getYoutubeVideoId_token[of url] idchar_alphabet
  by (auto simp: list_all_iff)

theorem getYoutubeVideoId_range_witness:
  "getYoutubeVideoId (js ''https://youtu.be/dQw4w9WgXcQ'') = js ''dQw4w9WgXcQ'' \<and>
   length (getYoutubeVideoId (js ''https://youtu.be/dQw4w9WgXcQ'')) = 11 \<and>
   set (getYoutubeVideoId (js ''https://youtu.be/dQw4w9WgXcQ''))
     \<subseteq> set (js ''ABCDEFGHIJKLMNOPQRSTUVWXYZabcdefghijklmnopqrstuvwxyz0123456789_-'')"
proof -
  have v: "getYoutubeVideoId (js ''https://youtu.be/dQw4w9WgXcQ'') = js ''dQw4w9WgXcQ''"
    by (simp add: resolver_eval)
  have "js ''dQw4w9WgXcQ'' \<noteq> []"
    by (simp add: js_def)
  with v getYoutubeVideoId_range[of "js ''https://youtu.be/dQw4w9WgXcQ''"] show ?thesis
    by simp
qed

section \<open>Short-form links and long-form links\<close>

text \<open>
  Claim C5, as stated: every input that matches the short-form pattern yields the token
  that the long-form link to the same video yields. It fails where the general pattern,
  which is tried first, matches the input as well: after \<open>youtube.com/\<close> the general
  pattern accepts two path segments and takes the token from the third.
\<close>

theorem shorts_token_counterexample:
  "exec shortsRegex (js ''youtube.com/shorts/ABCDEFGHIJK/LMNOPQRSTUV'')
     = Some (Some (js ''ABCDEFGHIJK'')) \<and>
   getYoutubeVideoId (js ''youtube.com/watch?v=ABCDEFGHIJK'') = js ''ABCDEFGHIJK'' \<and>
   getYoutubeVideoId (js ''youtube.com/shorts/ABCDEFGHIJK/LMNOPQRSTUV'') = js ''LMNOPQRSTUV'' \<and>
   getYoutubeVideoId (js ''youtube.com/shorts/ABCDEFGHIJK/LMNOPQRSTUV'')
     \<noteq> getYoutubeVideoId (js ''youtube.com/watch?v=ABCDEFGHIJK'')"
  by (simp add: resolver_eval)

text \<open>
  Claim C5, amended: for every input that matches the short-form pattern and that the
  general pattern does not match, \<open>getYoutubeVideoId\<close> returns the token captured by the
  short-form pattern, and it returns the same token for the long-form links
  \<open>youtube.com/watch?v=<token>\<close> and \<open>youtu.be/<token>\<close>.
\<close>

theorem shorts_token_as_long_form:
  assumes "exec shortsRegex url = Some (Some t)" and "exec youtubeRegex url = None"
  shows "getYoutubeVideoId url = t \<and>
         getYoutubeVideoId (js ''youtube.com/watch?v='' @ t) = t \<and>
         getYoutubeVideoId (js ''youtu.be/'' @ t) = t"
proof -
  from exec_shortsRegex_token[OF assms(1)] have t: "length t = 11" "list_all idchar t"
    by auto
  then have ne: "t \<noteq> []" by auto
  have "getYoutubeVideoId url = t"
    by (simp add: getYoutubeVideoId_def assms)
  moreover have "getYoutubeVideoId (js ''youtube.com/watch?v='' @ t) = t"
    by (simp add: getYoutubeVideoId_def exec_watch[OF t] ne)
  moreover have "getYoutubeVideoId (js ''youtu.be/'' @ t) = t"
    by (simp add: getYoutubeVideoId_def exec_youtu_be[OF t] ne)
  ultimately show ?thesis by simp
qed

theorem shorts_token_as_long_form_witness:
  "exec shortsRegex (js ''https://www.youtube.com/shorts/dQw4w9WgXcQ'')
     = Some (Some (js ''dQw4w9WgXcQ'')) \<and>
   exec youtubeRegex (js ''https://www.youtube.com/shorts/dQw4w9WgXcQ'') = None \<and>
   getYoutubeVideoId (js ''https://www.youtube.com/shorts/dQw4w9WgXcQ'') = js ''dQw4w9WgXcQ'' \<and>
   getYoutubeVideoId (js ''youtube.com/watch?v='' @ js ''dQw4w9WgXcQ'') = js ''dQw4w9WgXcQ'' \<and>
   getYoutubeVideoId (js ''youtu.be/'' @ js ''dQw4w9WgXcQ'') = js ''dQw4w9WgXcQ''"
proof -
  have h1: "exec shortsRegex (js ''https://www.youtube.com/shorts/dQw4w9WgXcQ'')
              = Some (Some (js ''dQw4w9WgXcQ''))"
    by (simp add: resolver_eval)
  have h2: "exec youtubeRegex (js ''https://www.youtube.com/shorts/dQw4w9WgXcQ'') = None"
    by (simp add: resolver_eval)
  from shorts_token_as_long_form[OF h1 h2] h1 h2 show ?thesis by simp
qed

section \<open>The debounce of the add-recipe form\<close>

lemma wf_cleanup_timers: "well_formed m \<Longrightarrow> timers (cleanup m) = []"
  by (auto simp: well_formed_def cleanup_def list_all_iff filter_empty_conv)

lemma wf_timers_youtubeUrl: "well_formed m \<Longrightarrow> timers (cleanup (m\<lparr>youtubeUrl := u\<rparr>)) = []"
  using wf_cleanup_timers[of "m\<lparr>youtubeUrl := u\<rparr>"] by (simp add: well_formed_def)

lemma cleanup_fields [simp]:
  "youtubeUrl (cleanup m) = youtubeUrl m"
  "thumbnailUrl (cleanup m) = thumbnailUrl m"
  "videoTitle (cleanup m) = videoTitle m"
  "selectedTags (cleanup m) = selectedTags m"
  "isValidUrl (cleanup m) = isValidUrl m"
  "now (cleanup m) = now m"
  "handler (cleanup m) = handler m"
  "nextHandle (cleanup m) = nextHandle m"
  "requests (cleanup m) = requests m"
  "pending (cleanup m) = pending m"
  by (simp_all add: cleanup_def split: option.splits)

lemma edit_armed:
  assumes "well_formed m" "u \<noteq> youtubeUrl m"
  shows "armed (requests m) u (edit u m)"
  using assms wf_timers_youtubeUrl[OF assms(1), of u]
  by (simp add: armed_def edit_def effect_def Let_def)

lemma armed_wait_early:
  assumes "armed R u m" "d < 500"
  shows "wait key d m = m\<lparr>now := now m + d\<rparr>"
  using assms by (simp add: armed_def wait_def Let_def)

lemma armed_wait_late:
  assumes "armed R u m" "500 \<le> d"
  shows "wait key d m = callback key u (m\<lparr>now := now m + d, timers := []\<rparr>)"
  using assms by (simp add: armed_def wait_def Let_def)

lemma armed_step:
  assumes "armed R u m" "d < 500" "v \<noteq> u"
  shows "armed R v (edit v (wait key d m))"
proof -
  have w: "wait key d m = m\<lparr>now := now m + d\<rparr>"
    using assms(1,2) by (rule armed_wait_early)
  have "timers (cleanup (m\<lparr>now := now m + d, youtubeUrl := v\<rparr>)) = []"
    using assms(1) by (simp add: armed_def cleanup_def)
  then show ?thesis
    using assms by (simp add: w armed_def edit_def effect_def Let_def)
qed

lemma armed_burst:
  assumes "armed R u m" "changes u (map snd rest)" "list_all (\<lambda>(d, v). d < 500) rest"
  shows "armed R (last (u # map snd rest))
           (fold (step key) (concat (map (\<lambda>(d, v). [Wait d, Edit v]) rest)) m)"
  using assms
proof (induction rest arbitrary: u m)
  case Nil
  then show ?case by simp
next
  case (Cons p rest)
  obtain d v where p: "p = (d, v)" by (cases p)
  with Cons.prems have "armed R v (edit v (wait key d m))"
    by (auto intro: armed_step)
  moreover from Cons.prems p have "changes v (map snd rest)" "list_all (\<lambda>(d, v). d < 500) rest"
    by auto
  ultimately have "armed R (last (v # map snd rest))
      (fold (step key) (concat (map (\<lambda>(d, v). [Wait d, Edit v]) rest)) (edit v (wait key d m)))"
    by (rule Cons.IH)
  with p show ?case by simp
qed

text \<open>Every state that the component reaches is well-formed.\<close>

lemma callback_frame [simp]:
  "timers (callback key u m) = timers m"
  "handler (callback key u m) = handler m"
  "youtubeUrl (callback key u m) = youtubeUrl m"
  "now (callback key u m) = now m"
  "nextHandle (callback key u m) = nextHandle m"
  by (simp_all add: callback_def Let_def)

lemma callback_pending:
  "list_all (\<lambda>i. i < length (requests m)) (pending m) \<Longrightarrow>
   list_all (\<lambda>i. i < length (requests (callback key u m))) (pending (callback key u m))"
  by (auto simp: callback_def Let_def list_all_iff)

lemma fold_callback_frame:
  "timers (fold (\<lambda>(h, at, url). callback key url) due m) = timers m \<and>
   handler (fold (\<lambda>(h, at, url). callback key url) due m) = handler m \<and>
   (list_all (\<lambda>i. i < length (requests m)) (pending m) \<longrightarrow>
    list_all (\<lambda>i. i < length (requests (fold (\<lambda>(h, at, url). callback key url) due m)))
      (pending (fold (\<lambda>(h, at, url). callback key url) due m)))"
proof (induction due arbitrary: m)
  case Nil
  then show ?case by simp
next
  case (Cons x due)
  obtain h at url where x: "x = (h, at, url)" by (cases x)
  show ?case
    using Cons.IH[of "callback key url m"] callback_pending[of m key url]
    by (simp add: x)
qed

lemma wf_wait: "well_formed m \<Longrightarrow> well_formed (wait key d m)"
proof -
  assume w: "well_formed m"
  let ?t = "now m + d"
  let ?m1 = "m\<lparr>now := ?t, timers := filter (\<lambda>(h, at, url). \<not> at \<le> ?t) (timers m)\<rparr>"
  let ?due = "filter (\<lambda>(h, at, url). at \<le> ?t) (timers m)"
  have w1: "well_formed ?m1"
    using w by (auto simp: well_formed_def list_all_iff)
  have eq: "wait key d m = fold (\<lambda>(h, at, url). callback key url) ?due ?m1"
    by (simp add: wait_def Let_def)
  show ?thesis
    unfolding eq using fold_callback_frame[of key ?due ?m1] w1
    by (simp add: well_formed_def)
qed

lemma wf_edit: "well_formed m \<Longrightarrow> well_formed (edit u m)"
proof (cases "u = youtubeUrl m")
  case True
  assume "well_formed m"
  with True show ?thesis by (simp add: edit_def)
next
  case False
  assume w: "well_formed m"
  from edit_armed[OF w False] w show ?thesis
    by (simp add: armed_def well_formed_def edit_def effect_def Let_def False)
qed

lemma wf_resolve: "well_formed m \<Longrightarrow> well_formed (resolve i r m)"
  by (auto simp: well_formed_def resolve_def list_all_iff)

lemma wf_mount: "well_formed mount"
  by (simp add: well_formed_def mount_def effect_def Let_def)

lemma wf_step: "well_formed m \<Longrightarrow> well_formed (step key e m)"
  by (cases e) (simp_all add: wf_edit wf_wait wf_resolve)

lemma wf_run: "well_formed m \<Longrightarrow> well_formed (run key evs m)"
  unfolding run_def by (induction evs arbitrary: m) (simp_all add: wf_step)

text \<open>Evaluation on concrete inputs.\<close>

lemma id_A: "getYoutubeVideoId (js ''https://youtu.be/dQw4w9WgXcQ'') = js ''dQw4w9WgXcQ''"
  by (simp add: resolver_eval)

lemma id_B: "getYoutubeVideoId (js ''https://youtu.be/9bZkp7q19f0'') = js ''9bZkp7q19f0''"
  by (simp add: resolver_eval)

lemma id_none: "getYoutubeVideoId (js ''not a url'') = []"
  by (simp add: resolver_eval)

lemma edit_frame [simp]:
  "pending (edit u m) = pending m"
  "requests (edit u m) = requests m"
  "thumbnailUrl (edit u m) = thumbnailUrl m"
  "isValidUrl (edit u m) = isValidUrl m"
  "selectedTags (edit u m) = selectedTags m"
  "now (edit u m) = now m"
  by (simp_all add: edit_def effect_def Let_def)

lemma two_fetches_run:
  assumes "uA \<noteq> []" "uB \<noteq> []" "uA \<noteq> uB" "uB \<noteq> uA"
    and "getYoutubeVideoId uA = vA" "getYoutubeVideoId uB = vB" "vA \<noteq> []" "vB \<noteq> []"
    and "truthy key"
  shows "run key [Edit uA, Wait 500, Edit uB, Wait 500] mount =
     \<lparr>youtubeUrl = uB, thumbnailUrl = getYoutubeThumbnailUrl vB, videoTitle = [],
      selectedTags = [], isValidUrl = True, isLoadingThumbnail = False, isFetchingTitle = True,
      now = 1000, timers = [], handler = Some 2, nextHandle = 3,
      requests = [vA, vB], pending = [0, 1]\<rparr>"
  using assms
  by (simp add: run_def edit_def cleanup_def effect_def wait_def callback_def mount_def Let_def)

lemma run_append: "run key (xs @ ys) m = run key ys (run key xs m)"
  by (simp add: run_def)

lemma stale_last_run:
  assumes "uA \<noteq> []" "uB \<noteq> []" "uA \<noteq> uB" "uB \<noteq> uA"
    and "getYoutubeVideoId uA = vA" "getYoutubeVideoId uB = vB" "vA \<noteq> []" "vB \<noteq> []"
    and "truthy key"
  shows "run key [Edit uA, Wait 500, Edit uB, Wait 500, Resolve 1 rB, Resolve 0 rA] mount =
     \<lparr>youtubeUrl = uB, thumbnailUrl = getYoutubeThumbnailUrl vB, videoTitle = titleOf rA,
      selectedTags = [], isValidUrl = True, isLoadingThumbnail = False, isFetchingTitle = False,
      now = 1000, timers = [], handler = Some 2, nextHandle = 3,
      requests = [vA, vB], pending = []\<rparr>"
proof -
  have "run key [Edit uA, Wait 500, Edit uB, Wait 500, Resolve 1 rB, Resolve 0 rA] mount =
        run key [Resolve 1 rB, Resolve 0 rA] (run key [Edit uA, Wait 500, Edit uB, Wait 500] mount)"
    using run_append[of key "[Edit uA, Wait 500, Edit uB, Wait 500]" "[Resolve 1 rB, Resolve 0 rA]" mount]
    by simp
  then show ?thesis
    unfolding two_fetches_run[OF assms] by (simp add: run_def resolve_def)
qed

lemma one_fetch_run:
  assumes "uA \<noteq> []" "getYoutubeVideoId uA = vA" "vA \<noteq> []" "truthy key"
  shows "run key [Edit uA, Wait 500] mount =
     \<lparr>youtubeUrl = uA, thumbnailUrl = getYoutubeThumbnailUrl vA, videoTitle = [],
      selectedTags = [], isValidUrl = True, isLoadingThumbnail = False, isFetchingTitle = True,
      now = 500, timers = [], handler = Some 1, nextHandle = 2,
      requests = [vA], pending = [0]\<rparr>"
  using assms
  by (simp add: run_def edit_def cleanup_def effect_def wait_def callback_def mount_def Let_def)

lemma one_fetch_run_nokey:
  assumes "uA \<noteq> []" "getYoutubeVideoId uA = vA" "vA \<noteq> []" "\<not> truthy key"
  shows "run key [Edit uA, Wait 500] mount =
     \<lparr>youtubeUrl = uA, thumbnailUrl = getYoutubeThumbnailUrl vA,
      videoTitle = js ''Untitled Recipe (API Key missing)'',
      selectedTags = [], isValidUrl = True, isLoadingThumbnail = False, isFetchingTitle = True,
      now = 500, timers = [], handler = Some 1, nextHandle = 2,
      requests = [], pending = []\<rparr>"
  using assms
  by (simp add: run_def edit_def cleanup_def effect_def wait_def callback_def mount_def Let_def)

lemma callback_no_key:
  assumes "getYoutubeVideoId url \<noteq> []" and "\<not> truthy key"
  shows "callback key url m =
           m\<lparr>thumbnailUrl := getYoutubeThumbnailUrl (getYoutubeVideoId url),
              isValidUrl := True, isLoadingThumbnail := False,
              videoTitle := js ''Untitled Recipe (API Key missing)''\<rparr>"
  using assms by (simp add: callback_def Let_def)

lemma callback_key:
  assumes "getYoutubeVideoId url \<noteq> []" and "truthy key"
  shows "callback key url m =
           m\<lparr>thumbnailUrl := getYoutubeThumbnailUrl (getYoutubeVideoId url),
              isValidUrl := True, isLoadingThumbnail := False, isFetchingTitle := True,
              requests := requests m @ [getYoutubeVideoId url],
              pending := pending m @ [length (requests m)]\<rparr>"
  using assms by (simp add: callback_def Let_def)

text \<open>
  Claim C9. In a burst of edits of the URL input, each one less than 500 ms after the
  one before it and each one changing the value, no title request is issued while the
  burst lasts, and after it at most one is issued: for the identifier of the final value,
  once 500 ms have passed, when that value has an identifier and an API key is set.
\<close>

theorem burst_one_fetch:
  assumes "well_formed m" and "changes (youtubeUrl m) (u # map snd rest)"
    and "list_all (\<lambda>(d, v). d < 500) rest"
  shows "requests (wait key w (run key (burst u rest) m)) =
           requests m @
           (if 500 \<le> w \<and> truthy key \<and> getYoutubeVideoId (last (u # map snd rest)) \<noteq> []
            then [getYoutubeVideoId (last (u # map snd rest))] else [])"
proof -
  let ?m = "run key (burst u rest) m"
  let ?v = "last (u # map snd rest)"
  from assms have "armed (requests m) u (edit u m)"
    by (auto intro: edit_armed)
  with assms have a: "armed (requests m) ?v ?m"
    unfolding run_def burst_def using armed_burst[of "requests m" u "edit u m" rest key]
    by simp
  show ?thesis
  proof (cases "500 \<le> w")
    case True
    have "wait key w ?m = callback key ?v (?m\<lparr>now := now ?m + w, timers := []\<rparr>)"
      using a True by (rule armed_wait_late)
    with a True show ?thesis
      by (simp add: callback_def Let_def armed_def)
  next
    case False
    with a have "wait key w ?m = ?m\<lparr>now := now ?m + w\<rparr>"
      using armed_wait_early[of "requests m" ?v ?m w key] by simp
    with a False show ?thesis
      by (simp add: armed_def)
  qed
qed

theorem burst_one_fetch_witness:
  "well_formed mount \<and>
   changes (youtubeUrl mount) (js ''h'' # map snd [(120::nat, js ''https://youtu.be/''), (300, js ''https://youtu.be/dQw4w9WgXcQ'')]) \<and>
   list_all (\<lambda>(d, v). d < 500) [(120::nat, js ''https://youtu.be/''), (300, js ''https://youtu.be/dQw4w9WgXcQ'')] \<and>
   requests (wait (Some (js ''key'')) 500
      (run (Some (js ''key''))
         (burst (js ''h'') [(120::nat, js ''https://youtu.be/''), (300, js ''https://youtu.be/dQw4w9WgXcQ'')])
         mount))
     = [js ''dQw4w9WgXcQ'']"
proof -
  have c: "changes (youtubeUrl mount) (js ''h'' # map snd [(120::nat, js ''https://youtu.be/''), (300, js ''https://youtu.be/dQw4w9WgXcQ'')])"
    by (simp add: mount_def effect_def Let_def js_def)
  have l: "list_all (\<lambda>(d, v). d < 500) [(120::nat, js ''https://youtu.be/''), (300, js ''https://youtu.be/dQw4w9WgXcQ'')]"
    by simp
  have r: "requests mount = []"
    by (simp add: mount_def effect_def Let_def)
  from burst_one_fetch[OF wf_mount c l, of "Some (js ''key'')" 500] c l wf_mount r id_A
  show ?thesis
    by (simp add: truthy_def js_def)
qed

section \<open>A title request that is in flight when the input changes\<close>

text \<open>
  Claim C1, as stated: when an earlier edit's title request is still in flight at a later
  edit, only the outcome of the latest edit's request is applied to the title, whatever
  the order in which the two requests settle. It fails: two edits, each followed by its
  500 ms, issue two requests; the second settles first, the first settles last, and the
  title is the one of the first video while the input holds the second link.
\<close>

theorem stale_fetch_counterexample:
  "youtubeUrl (run (Some (js ''key''))
      [Edit (js ''https://youtu.be/dQw4w9WgXcQ''), Wait 500,
       Edit (js ''https://youtu.be/9bZkp7q19f0''), Wait 500,
       Resolve 1 (Json (Some [js ''Second''])),
       Resolve 0 (Json (Some [js ''First'']))] mount) = js ''https://youtu.be/9bZkp7q19f0'' \<and>
   requests (run (Some (js ''key''))
      [Edit (js ''https://youtu.be/dQw4w9WgXcQ''), Wait 500,
       Edit (js ''https://youtu.be/9bZkp7q19f0''), Wait 500,
       Resolve 1 (Json (Some [js ''Second''])),
       Resolve 0 (Json (Some [js ''First'']))] mount) = [js ''dQw4w9WgXcQ'', js ''9bZkp7q19f0''] \<and>
   videoTitle (run (Some (js ''key''))
      [Edit (js ''https://youtu.be/dQw4w9WgXcQ''), Wait 500,
       Edit (js ''https://youtu.be/9bZkp7q19f0''), Wait 500,
       Resolve 1 (Json (Some [js ''Second''])),
       Resolve 0 (Json (Some [js ''First'']))] mount) = js ''First''"
proof -
  have "run (Some (js ''key''))
      [Edit (js ''https://youtu.be/dQw4w9WgXcQ''), Wait 500,
       Edit (js ''https://youtu.be/9bZkp7q19f0''), Wait 500,
       Resolve 1 (Json (Some [js ''Second''])),
       Resolve 0 (Json (Some [js ''First'']))] mount =
     \<lparr>youtubeUrl = js ''https://youtu.be/9bZkp7q19f0'',
      thumbnailUrl = getYoutubeThumbnailUrl (js ''9bZkp7q19f0''),
      videoTitle = titleOf (Json (Some [js ''First''])),
      selectedTags = [], isValidUrl = True, isLoadingThumbnail = False, isFetchingTitle = False,
      now = 1000, timers = [], handler = Some 2, nextHandle = 3,
      requests = [js ''dQw4w9WgXcQ'', js ''9bZkp7q19f0''], pending = []\<rparr>"
    by (rule stale_last_run) (simp_all add: id_A id_B, simp_all add: js_def truthy_def)
  then show ?thesis by (simp add: titleOf_def)
qed

text \<open>
  Claim C1, amended: a later edit cancels the pending callback of the earlier edit, not a
  request that is already in flight. When a request \<open>i\<close> is in flight and the input
  changes to a link with an identifier, a second request is issued once the 500 ms have
  passed; the outcome of each of the two is written to the title when it settles, so that
  after both have settled the title is the outcome of the one that settled last: the one
  of the latest input when the earlier request settles first, the one of the earlier
  request otherwise.
\<close>

theorem stale_fetch_applied:
  assumes "well_formed m" and "i \<in> set (pending m)" and "u \<noteq> youtubeUrl m"
    and "getYoutubeVideoId u \<noteq> []" and "truthy key" and "500 \<le> d"
  shows "pending (wait key d (edit u m)) = pending m @ [length (requests m)] \<and>
         requests (wait key d (edit u m)) = requests m @ [getYoutubeVideoId u] \<and>
         i \<noteq> length (requests m) \<and>
         youtubeUrl (resolve i r1 (wait key d (edit u m))) = u \<and>
         videoTitle (resolve i r1 (wait key d (edit u m))) = titleOf r1 \<and>
         videoTitle (resolve (length (requests m)) r2 (resolve i r1 (wait key d (edit u m))))
           = titleOf r2 \<and>
         videoTitle (resolve i r1 (resolve (length (requests m)) r2 (wait key d (edit u m))))
           = titleOf r1"
proof -
  let ?e = "edit u m"
  let ?w = "wait key d ?e"
  have a: "armed (requests m) u ?e"
    using assms(1,3) by (rule edit_armed)
  have w: "?w = callback key u (?e\<lparr>now := now ?e + d, timers := []\<rparr>)"
    using a assms(6) by (rule armed_wait_late)
  have p: "pending ?w = pending m @ [length (requests m)]"
    and r: "requests ?w = requests m @ [getYoutubeVideoId u]"
    and y: "youtubeUrl ?w = u"
    using assms(4,5) a by (simp_all add: w callback_def Let_def armed_def)
  have lt: "i < length (requests m)"
    using assms(1,2) by (auto simp: well_formed_def list_all_iff)
  then have ne: "i \<noteq> length (requests m)" by simp
  show ?thesis
    using p r y ne assms(2) by (simp add: resolve_def)
qed

theorem stale_fetch_applied_witness:
  "well_formed (run (Some (js ''key'')) [Edit (js ''https://youtu.be/dQw4w9WgXcQ''), Wait 500] mount) \<and>
   0 \<in> set (pending (run (Some (js ''key'')) [Edit (js ''https://youtu.be/dQw4w9WgXcQ''), Wait 500] mount)) \<and>
   js ''https://youtu.be/9bZkp7q19f0''
     \<noteq> youtubeUrl (run (Some (js ''key'')) [Edit (js ''https://youtu.be/dQw4w9WgXcQ''), Wait 500] mount) \<and>
   getYoutubeVideoId (js ''https://youtu.be/9bZkp7q19f0'') \<noteq> [] \<and>
   truthy (Some (js ''key'')) \<and> (500::nat) \<le> 500 \<and>
   videoTitle (resolve 0 (Json (Some [js ''First'']))
     (resolve 1 (Json (Some [js ''Second'']))
       (wait (Some (js ''key'')) 500
         (edit (js ''https://youtu.be/9bZkp7q19f0'')
           (run (Some (js ''key'')) [Edit (js ''https://youtu.be/dQw4w9WgXcQ''), Wait 500] mount)))))
     = js ''First''"
proof -
  let ?m = "run (Some (js ''key'')) [Edit (js ''https://youtu.be/dQw4w9WgXcQ''), Wait 500] mount"
  have m: "?m =
     \<lparr>youtubeUrl = js ''https://youtu.be/dQw4w9WgXcQ'',
      thumbnailUrl = getYoutubeThumbnailUrl (js ''dQw4w9WgXcQ''), videoTitle = [],
      selectedTags = [], isValidUrl = True, isLoadingThumbnail = False, isFetchingTitle = True,
      now = 500, timers = [], handler = Some 1, nextHandle = 2,
      requests = [js ''dQw4w9WgXcQ''], pending = [0]\<rparr>"
    by (rule one_fetch_run) (simp_all add: id_A, simp_all add: js_def truthy_def)
  have h1: "well_formed ?m"
    using wf_mount by (rule wf_run)
  have h2: "0 \<in> set (pending ?m)"
    by (simp add: m)
  have h3: "js ''https://youtu.be/9bZkp7q19f0'' \<noteq> youtubeUrl ?m"
    by (simp add: m) (simp add: js_def)
  have h4: "getYoutubeVideoId (js ''https://youtu.be/9bZkp7q19f0'') \<noteq> []"
    by (simp add: id_B) (simp add: js_def)
  have h5: "truthy (Some (js ''key''))"
    by (simp add: truthy_def js_def)
  have h6: "(500::nat) \<le> 500"
    by simp
  have l: "length (requests ?m) = 1"
    by (simp add: m)
  from stale_fetch_applied[OF h1 h2 h3 h4 h5 h6,
      of "Json (Some [js ''First''])" "Json (Some [js ''Second''])"]
  have "videoTitle (resolve 0 (Json (Some [js ''First'']))
     (resolve 1 (Json (Some [js ''Second'']))
       (wait (Some (js ''key'')) 500 (edit (js ''https://youtu.be/9bZkp7q19f0'') ?m))))
     = js ''First''"
    unfolding l by (simp add: titleOf_def)
  with h1 h2 h3 h4 h5 show ?thesis by simp
qed

section \<open>An input without identifier\<close>

text \<open>
  Claim C2, as stated: when the input changes to a string without identifier, thumbnail,
  title, validity flag and loading flags are reset at the moment of the change. It fails:
  after a link has been resolved, an edit to \<open>not a url\<close> leaves the thumbnail and the
  validity flag of the link in place and sets both loading flags.
\<close>

theorem invalid_input_counterexample:
  "getYoutubeVideoId (js ''not a url'') = [] \<and>
   thumbnailUrl (run None [Edit (js ''https://youtu.be/dQw4w9WgXcQ''), Wait 500,
                           Edit (js ''not a url'')] mount)
     = js ''https://img.youtube.com/vi/dQw4w9WgXcQ/hqdefault.jpg'' \<and>
   isValidUrl (run None [Edit (js ''https://youtu.be/dQw4w9WgXcQ''), Wait 500,
                         Edit (js ''not a url'')] mount) \<and>
   isLoadingThumbnail (run None [Edit (js ''https://youtu.be/dQw4w9WgXcQ''), Wait 500,
                                 Edit (js ''not a url'')] mount) \<and>
   isFetchingTitle (run None [Edit (js ''https://youtu.be/dQw4w9WgXcQ''), Wait 500,
                              Edit (js ''not a url'')] mount)"
proof -
  have m: "run None [Edit (js ''https://youtu.be/dQw4w9WgXcQ''), Wait 500] mount =
     \<lparr>youtubeUrl = js ''https://youtu.be/dQw4w9WgXcQ'',
      thumbnailUrl = getYoutubeThumbnailUrl (js ''dQw4w9WgXcQ''),
      videoTitle = js ''Untitled Recipe (API Key missing)'',
      selectedTags = [], isValidUrl = True, isLoadingThumbnail = False, isFetchingTitle = True,
      now = 500, timers = [], handler = Some 1, nextHandle = 2,
      requests = [], pending = []\<rparr>"
    by (rule one_fetch_run_nokey) (simp_all add: id_A, simp_all add: js_def truthy_def)
  have "run None [Edit (js ''https://youtu.be/dQw4w9WgXcQ''), Wait 500, Edit (js ''not a url'')] mount
      = edit (js ''not a url'') (run None [Edit (js ''https://youtu.be/dQw4w9WgXcQ''), Wait 500] mount)"
    by (simp add: run_def)
  moreover have "js ''not a url'' \<noteq> js ''https://youtu.be/dQw4w9WgXcQ''" "js ''not a url'' \<noteq> []"
    by (simp_all add: js_def)
  moreover have "getYoutubeThumbnailUrl (js ''dQw4w9WgXcQ'')
      = js ''https://img.youtube.com/vi/dQw4w9WgXcQ/hqdefault.jpg''"
    by (simp add: getYoutubeThumbnailUrl_def js_def)
  ultimately show ?thesis
    unfolding m by (simp add: id_none edit_def cleanup_def effect_def Let_def)
qed

text \<open>
  Claim C2, amended: when the input changes to a string without identifier, the title is
  cleared at once and both loading flags are set at once to whether the input is
  non-empty, while the thumbnail and the validity flag keep their values; so it stays
  until the 500 ms of the debounce have passed, and then thumbnail, title, validity flag
  and both loading flags are reset to empty and false. The reset of an input without
  identifier is debounced like the resolution of a link.
\<close>

theorem invalid_input_reset:
  assumes "well_formed m" and "u \<noteq> youtubeUrl m" and "getYoutubeVideoId u = []"
    and "d1 < 500" and "500 \<le> d2"
  shows "videoTitle (edit u m) = [] \<and>
         isLoadingThumbnail (edit u m) = (u \<noteq> []) \<and>
         isFetchingTitle (edit u m) = (u \<noteq> []) \<and>
         thumbnailUrl (edit u m) = thumbnailUrl m \<and>
         isValidUrl (edit u m) = isValidUrl m \<and>
         videoTitle (wait key d1 (edit u m)) = [] \<and>
         isLoadingThumbnail (wait key d1 (edit u m)) = (u \<noteq> []) \<and>
         isFetchingTitle (wait key d1 (edit u m)) = (u \<noteq> []) \<and>
         thumbnailUrl (wait key d1 (edit u m)) = thumbnailUrl m \<and>
         isValidUrl (wait key d1 (edit u m)) = isValidUrl m \<and>
         videoTitle (wait key d2 (edit u m)) = [] \<and>
         isLoadingThumbnail (wait key d2 (edit u m)) = False \<and>
         isFetchingTitle (wait key d2 (edit u m)) = False \<and>
         thumbnailUrl (wait key d2 (edit u m)) = [] \<and>
         isValidUrl (wait key d2 (edit u m)) = False"
proof -
  let ?e = "edit u m"
  have a: "armed (requests m) u ?e"
    using assms(1,2) by (rule edit_armed)
  have now: "videoTitle ?e = [] \<and> isLoadingThumbnail ?e = (u \<noteq> []) \<and>
      isFetchingTitle ?e = (u \<noteq> [])"
    using assms(1,2)
    by (auto simp: edit_def effect_def cleanup_def Let_def well_formed_def split: option.splits)
  have early: "wait key d1 ?e = ?e\<lparr>now := now ?e + d1\<rparr>"
    using a assms(4) by (rule armed_wait_early)
  have late: "wait key d2 ?e = callback key u (?e\<lparr>now := now ?e + d2, timers := []\<rparr>)"
    using a assms(5) by (rule armed_wait_late)
  show ?thesis
    using now assms(3) by (simp add: early late callback_def Let_def)
qed

theorem invalid_input_reset_witness:
  "well_formed (run None [Edit (js ''https://youtu.be/dQw4w9WgXcQ''), Wait 500] mount) \<and>
   js ''not a url'' \<noteq> youtubeUrl (run None [Edit (js ''https://youtu.be/dQw4w9WgXcQ''), Wait 500] mount) \<and>
   getYoutubeVideoId (js ''not a url'') = [] \<and> (499::nat) < 500 \<and> (500::nat) \<le> 500 \<and>
   isValidUrl (run None [Edit (js ''https://youtu.be/dQw4w9WgXcQ''), Wait 500] mount) \<and>
   isValidUrl (wait None 499 (edit (js ''not a url'')
      (run None [Edit (js ''https://youtu.be/dQw4w9WgXcQ''), Wait 500] mount))) \<and>
   \<not> isValidUrl (wait None 500 (edit (js ''not a url'')
      (run None [Edit (js ''https://youtu.be/dQw4w9WgXcQ''), Wait 500] mount))) \<and>
   thumbnailUrl (wait None 500 (edit (js ''not a url'')
      (run None [Edit (js ''https://youtu.be/dQw4w9WgXcQ''), Wait 500] mount))) = []"
proof -
  let ?m = "run None [Edit (js ''https://youtu.be/dQw4w9WgXcQ''), Wait 500] mount"
  have m: "?m =
     \<lparr>youtubeUrl = js ''https://youtu.be/dQw4w9WgXcQ'',
      thumbnailUrl = getYoutubeThumbnailUrl (js ''dQw4w9WgXcQ''),
      videoTitle = js ''Untitled Recipe (API Key missing)'',
      selectedTags = [], isValidUrl = True, isLoadingThumbnail = False, isFetchingTitle = True,
      now = 500, timers = [], handler = Some 1, nextHandle = 2,
      requests = [], pending = []\<rparr>"
    by (rule one_fetch_run_nokey) (simp_all add: id_A, simp_all add: js_def truthy_def)
  have h1: "well_formed ?m"
    using wf_mount by (rule wf_run)
  have h2: "js ''not a url'' \<noteq> youtubeUrl ?m"
    by (simp add: m) (simp add: js_def)
  have h4: "(499::nat) < 500" and h5: "(500::nat) \<le> 500"
    by simp_all
  have v: "isValidUrl ?m"
    by (simp add: m)
  from invalid_input_reset[OF h1 h2 id_none h4 h5, of None] h1 h2 id_none v
  show ?thesis by simp
qed

section \<open>The title of a resolved link\<close>

text \<open>
  Claim C6. When the callback extracts an identifier from the input, the validity flag is
  set, whatever becomes of the title. With an API key one request is issued, and when it
  settles the title is the snippet title of the first item if there is one, the
  placeholder \<open>Untitled Recipe (Video not found or private)\<close> if there is none, and the
  placeholder \<open>Untitled Recipe (Error fetching title)\<close> if the call fails. Without an API
  key no request is issued and the title is the placeholder
  \<open>Untitled Recipe (API Key missing)\<close>. The settling of a request never changes the
  validity flag.
\<close>

theorem title_four_cases:
  assumes "getYoutubeVideoId url \<noteq> []" and "truthy key" and "\<not> truthy nokey"
  shows "isValidUrl (callback key url m) \<and>
         requests (callback key url m) = requests m @ [getYoutubeVideoId url] \<and>
         pending (callback key url m) = pending m @ [length (requests m)] \<and>
         videoTitle (resolve (length (requests m)) (Json (Some (t # ts))) (callback key url m)) = t \<and>
         isValidUrl (resolve (length (requests m)) (Json (Some (t # ts))) (callback key url m)) \<and>
         videoTitle (resolve (length (requests m)) (Json (Some [])) (callback key url m))
           = js ''Untitled Recipe (Video not found or private)'' \<and>
         isValidUrl (resolve (length (requests m)) (Json (Some [])) (callback key url m)) \<and>
         videoTitle (resolve (length (requests m)) (Json None) (callback key url m))
           = js ''Untitled Recipe (Video not found or private)'' \<and>
         isValidUrl (resolve (length (requests m)) (Json None) (callback key url m)) \<and>
         videoTitle (resolve (length (requests m)) Rejected (callback key url m))
           = js ''Untitled Recipe (Error fetching title)'' \<and>
         isValidUrl (resolve (length (requests m)) Rejected (callback key url m)) \<and>
         videoTitle (callback nokey url m) = js ''Untitled Recipe (API Key missing)'' \<and>
         isValidUrl (callback nokey url m) \<and>
         requests (callback nokey url m) = requests m \<and>
         pending (callback nokey url m) = pending m \<and>
         isValidUrl (resolve i r m) = isValidUrl m"
  by (simp add: callback_key[OF assms(1,2)] callback_no_key[OF assms(1,3)] resolve_def titleOf_def)

theorem title_four_cases_witness:
  "getYoutubeVideoId (js ''https://youtu.be/dQw4w9WgXcQ'') \<noteq> [] \<and>
   truthy (Some (js ''key'')) \<and> \<not> truthy None \<and>
   requests (callback (Some (js ''key'')) (js ''https://youtu.be/dQw4w9WgXcQ'') mount)
     = [js ''dQw4w9WgXcQ''] \<and>
   videoTitle (resolve 0 (Json (Some [js ''Pasta'']))
      (callback (Some (js ''key'')) (js ''https://youtu.be/dQw4w9WgXcQ'') mount)) = js ''Pasta'' \<and>
   videoTitle (resolve 0 Rejected
      (callback (Some (js ''key'')) (js ''https://youtu.be/dQw4w9WgXcQ'') mount))
     = js ''Untitled Recipe (Error fetching title)'' \<and>
   videoTitle (callback None (js ''https://youtu.be/dQw4w9WgXcQ'') mount)
     = js ''Untitled Recipe (API Key missing)'' \<and>
   isValidUrl (callback None (js ''https://youtu.be/dQw4w9WgXcQ'') mount)"
proof -
  have h1: "getYoutubeVideoId (js ''https://youtu.be/dQw4w9WgXcQ'') \<noteq> []"
    by (simp add: id_A) (simp add: js_def)
  have h2: "truthy (Some (js ''key''))"
    by (simp add: truthy_def js_def)
  have h3: "\<not> truthy None"
    by (simp add: truthy_def)
  have r: "requests mount = []"
    by (simp add: mount_def effect_def Let_def)
  from title_four_cases[OF h1 h2 h3, of mount "js ''Pasta''" "[]"] h1 h2 h3
  show ?thesis by (simp add: r id_A)
qed

section \<open>Submission of the form\<close>

text \<open>
  Claim C7. When the form is submitted with the validity flag set and an identifier in
  the input, the record passed to the append mutation carries the full category list
  \<open>Breakfast\<close>, \<open>Lunch\<close>, \<open>Snacks\<close>, \<open>Dinner\<close>, \<open>Late-night\<close> when no tag is
  selected, and exactly the selected tags when one or more are.
\<close>

theorem submit_tags:
  assumes "isValidUrl m" and "getYoutubeVideoId (youtubeUrl m) \<noteq> []"
  shows "map_option r_tags (handleSubmit m) =
           Some (if selectedTags m = []
                 then [js ''Breakfast'', js ''Lunch'', js ''Snacks'', js ''Dinner'', js ''Late-night'']
                 else selectedTags m)"
  using assms by (simp add: handleSubmit_def Let_def categories_def)

theorem submit_tags_witness:
  "isValidUrl (run None [Edit (js ''https://youtu.be/dQw4w9WgXcQ''), Wait 500] mount) \<and>
   getYoutubeVideoId (youtubeUrl (run None [Edit (js ''https://youtu.be/dQw4w9WgXcQ''), Wait 500] mount))
     \<noteq> [] \<and>
   selectedTags (run None [Edit (js ''https://youtu.be/dQw4w9WgXcQ''), Wait 500] mount) = [] \<and>
   map_option r_tags
     (handleSubmit (run None [Edit (js ''https://youtu.be/dQw4w9WgXcQ''), Wait 500] mount))
     = Some [js ''Breakfast'', js ''Lunch'', js ''Snacks'', js ''Dinner'', js ''Late-night''] \<and>
   map_option r_tags
     (handleSubmit (handleTagChange (js ''Lunch'') (handleTagChange (js ''Dinner'')
        (run None [Edit (js ''https://youtu.be/dQw4w9WgXcQ''), Wait 500] mount))))
     = Some [js ''Dinner'', js ''Lunch'']"
proof -
  let ?m = "run None [Edit (js ''https://youtu.be/dQw4w9WgXcQ''), Wait 500] mount"
  have m: "?m =
     \<lparr>youtubeUrl = js ''https://youtu.be/dQw4w9WgXcQ'',
      thumbnailUrl = getYoutubeThumbnailUrl (js ''dQw4w9WgXcQ''),
      videoTitle = js ''Untitled Recipe (API Key missing)'',
      selectedTags = [], isValidUrl = True, isLoadingThumbnail = False, isFetchingTitle = True,
      now = 500, timers = [], handler = Some 1, nextHandle = 2,
      requests = [], pending = []\<rparr>"
    by (rule one_fetch_run_nokey) (simp_all add: id_A, simp_all add: js_def truthy_def)
  have h1: "isValidUrl ?m"
    by (simp add: m)
  have h2: "getYoutubeVideoId (youtubeUrl ?m) \<noteq> []"
    by (simp add: m id_A) (simp add: js_def)
  have s: "selectedTags ?m = []"
    by (simp add: m)
  let ?m2 = "handleTagChange (js ''Lunch'') (handleTagChange (js ''Dinner'') ?m)"
  have t: "selectedTags ?m2 = [js ''Dinner'', js ''Lunch'']"
    by (simp add: handleTagChange_def s) (simp add: js_def)
  have h1': "isValidUrl ?m2"
    using h1 by (simp add: handleTagChange_def)
  have h2': "getYoutubeVideoId (youtubeUrl ?m2) \<noteq> []"
    using h2 by (simp add: handleTagChange_def)
  from submit_tags[OF h1 h2] submit_tags[OF h1' h2'] h1 h2 s t show ?thesis
    by simp
qed

text \<open>The append mutation stores the record it is passed as it is.\<close>

lemma handleAddRecipe_stores:
  assumes "isAuthReady a"
  shows "(newId, r) \<in> set (recipesColl (snd (handleAddRecipe (Some (newId, pos)) r (a, db))))"
  using assms by (simp add: handleAddRecipe_def)

section \<open>Deleting a recipe\<close>

text \<open>
  The backend gives every document of a collection an id of its own, so the ids of the
  collection are distinct. The handlers are taken one at a time: no other writer changes
  the collection between the query and the deletion.
\<close>

lemma filter_first:
  assumes "filter P xs = y # ys"
  shows "\<exists>pre post. xs = pre @ y # post \<and> list_all (\<lambda>x. \<not> P x) pre \<and> P y"
  using assms
proof (induction xs)
  case Nil
  then show ?case by simp
next
  case (Cons x xs)
  show ?case
  proof (cases "P x")
    case True
    with Cons.prems have "x = y" by simp
    with True have "x # xs = [] @ y # xs \<and> list_all (\<lambda>x. \<not> P x) [] \<and> P y" by simp
    then show ?thesis by blast
  next
    case False
    with Cons obtain pre post where "xs = pre @ y # post" "list_all (\<lambda>x. \<not> P x) pre" "P y"
      by auto
    with False have "x # xs = (x # pre) @ y # post \<and> list_all (\<lambda>x. \<not> P x) (x # pre) \<and> P y"
      by simp
    then show ?thesis by blast
  qed
qed

lemma delete_decomposed:
  assumes "isAuthReady a"
    and "distinct (map fst (recipesColl db))"
    and "recipesColl db = pre @ d # post"
    and "list_all (\<lambda>x. r_videoId (snd x) \<noteq> videoId) pre"
    and "r_videoId (snd d) = videoId"
  shows "handleDeleteRecipe True True videoId (a, db) =
           (a\<lparr>toastMessage := js ''Recipe Deleted!'', showToast := True\<rparr>,
            db\<lparr>recipesColl := pre @ post\<rparr>)"
proof -
  have f: "filter (\<lambda>x. r_videoId (snd x) = videoId) (recipesColl db)
      = d # filter (\<lambda>x. r_videoId (snd x) = videoId) post"
    using assms(3,4,5) by (auto simp: list_all_iff filter_empty_conv)
  have dd: "distinct (map fst pre @ fst d # map fst post)"
    using assms(2,3) by simp
  then have nin: "fst d \<notin> set (map fst pre)" "fst d \<notin> set (map fst post)"
    by simp_all
  have "fst x \<noteq> fst d" if "x \<in> set pre" for x
  proof
    assume "fst x = fst d"
    with that have "fst d \<in> set (map fst pre)" by (metis image_eqI set_map)
    with nin show False by simp
  qed
  moreover have "fst x \<noteq> fst d" if "x \<in> set post" for x
  proof
    assume "fst x = fst d"
    with that have "fst d \<in> set (map fst post)" by (metis image_eqI set_map)
    with nin show False by simp
  qed
  ultimately have "filter (\<lambda>x. fst x \<noteq> fst d) pre = pre" "filter (\<lambda>x. fst x \<noteq> fst d) post = post"
    by (simp_all add: filter_id_conv)
  then have "filter (\<lambda>x. fst x \<noteq> fst d) (recipesColl db) = pre @ post"
    using assms(3) by simp
  with f assms(1) show ?thesis
    by (simp add: handleDeleteRecipe_def showActionToast_def)
qed

text \<open>
  Claim C3. When the session is ready and no record of the collection has the target
  identifier as its \<open>videoId\<close>, deleting by that identifier (the query resolving) shows
  the message \<open>Recipe not found!\<close> and leaves the collection as it is.
\<close>

theorem delete_not_found:
  assumes "isAuthReady a"
    and "videoId \<notin> set (map (\<lambda>d. r_videoId (snd d)) (recipesColl db))"
  shows "handleDeleteRecipe True deleteDoc videoId (a, db) =
           (showActionToast (js ''Recipe not found!'') a, db)"
proof -
  have "filter (\<lambda>d. r_videoId (snd d) = videoId) (recipesColl db) = []"
    using assms(2) by (auto simp: filter_empty_conv)
  with assms(1) show ?thesis
    by (simp add: handleDeleteRecipe_def)
qed

theorem delete_not_found_witness:
  "isAuthReady \<lparr>isAuthReady = True, toastMessage = [], showToast = False,
                 groceryText = [], isGroceryListEditing = False\<rparr> \<and>
   js ''9bZkp7q19f0'' \<notin> set (map (\<lambda>d. r_videoId (snd d)) (recipesColl
      \<lparr>recipesColl = [(js ''doc1'',
          \<lparr>r_youtubeUrl = js ''https://youtu.be/dQw4w9WgXcQ'', r_videoId = js ''dQw4w9WgXcQ'',
           r_thumbnailUrl = js ''https://img.youtube.com/vi/dQw4w9WgXcQ/hqdefault.jpg'',
           r_title = js ''Pasta'', r_tags = [js ''Dinner'']\<rparr>)],
       groceryDoc = None\<rparr>)) \<and>
   handleDeleteRecipe True True (js ''9bZkp7q19f0'')
     (\<lparr>isAuthReady = True, toastMessage = [], showToast = False,
       groceryText = [], isGroceryListEditing = False\<rparr>,
      \<lparr>recipesColl = [(js ''doc1'',
          \<lparr>r_youtubeUrl = js ''https://youtu.be/dQw4w9WgXcQ'', r_videoId = js ''dQw4w9WgXcQ'',
           r_thumbnailUrl = js ''https://img.youtube.com/vi/dQw4w9WgXcQ/hqdefault.jpg'',
           r_title = js ''Pasta'', r_tags = [js ''Dinner'']\<rparr>)],
       groceryDoc = None\<rparr>)
   = (\<lparr>isAuthReady = True, toastMessage = js ''Recipe not found!'', showToast = True,
       groceryText = [], isGroceryListEditing = False\<rparr>,
      \<lparr>recipesColl = [(js ''doc1'',
          \<lparr>r_youtubeUrl = js ''https://youtu.be/dQw4w9WgXcQ'', r_videoId = js ''dQw4w9WgXcQ'',
           r_thumbnailUrl = js ''https://img.youtube.com/vi/dQw4w9WgXcQ/hqdefault.jpg'',
           r_title = js ''Pasta'', r_tags = [js ''Dinner'']\<rparr>)],
       groceryDoc = None\<rparr>)"
proof -
  let ?a = "\<lparr>isAuthReady = True, toastMessage = [], showToast = False,
             groceryText = [], isGroceryListEditing = False\<rparr>"
  let ?db = "\<lparr>recipesColl = [(js ''doc1'',
          \<lparr>r_youtubeUrl = js ''https://youtu.be/dQw4w9WgXcQ'', r_videoId = js ''dQw4w9WgXcQ'',
           r_thumbnailUrl = js ''https://img.youtube.com/vi/dQw4w9WgXcQ/hqdefault.jpg'',
           r_title = js ''Pasta'', r_tags = [js ''Dinner'']\<rparr>)],
       groceryDoc = None\<rparr>"
  have h1: "isAuthReady ?a" by simp
  have h2: "js ''9bZkp7q19f0'' \<notin> set (map (\<lambda>d. r_videoId (snd d)) (recipesColl ?db))"
    by (simp add: js_def)
  from delete_not_found[OF h1 h2, of True] h1 h2 show ?thesis
    by (simp add: showActionToast_def)
qed

text \<open>
  Claim C4. When the session is ready and some record of the collection has the target
  identifier as its \<open>videoId\<close>, deleting by that identifier (query and deletion
  resolving) removes exactly one record, the first match in query order: the records
  before it, none of which matches, and all the records after it, further matches
  included, stay as they are and in their order.
\<close>

theorem delete_first_match:
  assumes "isAuthReady a"
    and "distinct (map fst (recipesColl db))"
    and "videoId \<in> set (map (\<lambda>d. r_videoId (snd d)) (recipesColl db))"
  shows "\<exists>pre d post.
           recipesColl db = pre @ d # post \<and>
           list_all (\<lambda>x. r_videoId (snd x) \<noteq> videoId) pre \<and>
           r_videoId (snd d) = videoId \<and>
           handleDeleteRecipe True True videoId (a, db) =
             (showActionToast (js ''Recipe Deleted!'') a, db\<lparr>recipesColl := pre @ post\<rparr>)"
proof -
  from assms(3) have "filter (\<lambda>d. r_videoId (snd d) = videoId) (recipesColl db) \<noteq> []"
    by (auto simp: filter_empty_conv)
  then obtain d ds where "filter (\<lambda>d. r_videoId (snd d) = videoId) (recipesColl db) = d # ds"
    by (cases "filter (\<lambda>d. r_videoId (snd d) = videoId) (recipesColl db)") auto
  from filter_first[OF this] obtain pre post where
    dec: "recipesColl db = pre @ d # post"
      "list_all (\<lambda>x. r_videoId (snd x) \<noteq> videoId) pre" "r_videoId (snd d) = videoId"
    by auto
  from delete_decomposed[OF assms(1,2) dec]
  have "handleDeleteRecipe True True videoId (a, db) =
      (showActionToast (js ''Recipe Deleted!'') a, db\<lparr>recipesColl := pre @ post\<rparr>)"
    by (simp add: showActionToast_def)
  with dec show ?thesis by blast
qed

theorem delete_first_match_witness:
  "isAuthReady \<lparr>isAuthReady = True, toastMessage = [], showToast = False,
                 groceryText = [], isGroceryListEditing = False\<rparr> \<and>
   distinct (map fst [(js ''doc1'',
          \<lparr>r_youtubeUrl = js ''https://youtu.be/dQw4w9WgXcQ'', r_videoId = js ''dQw4w9WgXcQ'',
           r_thumbnailUrl = [], r_title = js ''Pasta'', r_tags = [js ''Dinner'']\<rparr>),
        (js ''doc2'',
          \<lparr>r_youtubeUrl = js ''https://youtu.be/9bZkp7q19f0'', r_videoId = js ''9bZkp7q19f0'',
           r_thumbnailUrl = [], r_title = js ''Soup'', r_tags = [js ''Lunch'']\<rparr>),
        (js ''doc3'',
          \<lparr>r_youtubeUrl = js ''https://www.youtube.com/watch?v=9bZkp7q19f0'',
           r_videoId = js ''9bZkp7q19f0'',
           r_thumbnailUrl = [], r_title = js ''Soup again'', r_tags = [js ''Snacks'']\<rparr>)]) \<and>
   handleDeleteRecipe True True (js ''9bZkp7q19f0'')
     (\<lparr>isAuthReady = True, toastMessage = [], showToast = False,
       groceryText = [], isGroceryListEditing = False\<rparr>,
      \<lparr>recipesColl = [(js ''doc1'',
          \<lparr>r_youtubeUrl = js ''https://youtu.be/dQw4w9WgXcQ'', r_videoId = js ''dQw4w9WgXcQ'',
           r_thumbnailUrl = [], r_title = js ''Pasta'', r_tags = [js ''Dinner'']\<rparr>),
        (js ''doc2'',
          \<lparr>r_youtubeUrl = js ''https://youtu.be/9bZkp7q19f0'', r_videoId = js ''9bZkp7q19f0'',
           r_thumbnailUrl = [], r_title = js ''Soup'', r_tags = [js ''Lunch'']\<rparr>),
        (js ''doc3'',
          \<lparr>r_youtubeUrl = js ''https://www.youtube.com/watch?v=9bZkp7q19f0'',
           r_videoId = js ''9bZkp7q19f0'',
           r_thumbnailUrl = [], r_title = js ''Soup again'', r_tags = [js ''Snacks'']\<rparr>)],
       groceryDoc = None\<rparr>)
   = (\<lparr>isAuthReady = True, toastMessage = js ''Recipe Deleted!'', showToast = True,
       groceryText = [], isGroceryListEditing = False\<rparr>,
      \<lparr>recipesColl = [(js ''doc1'',
          \<lparr>r_youtubeUrl = js ''https://youtu.be/dQw4w9WgXcQ'', r_videoId = js ''dQw4w9WgXcQ'',
           r_thumbnailUrl = [], r_title = js ''Pasta'', r_tags = [js ''Dinner'']\<rparr>),
        (js ''doc3'',
          \<lparr>r_youtubeUrl = js ''https://www.youtube.com/watch?v=9bZkp7q19f0'',
           r_videoId = js ''9bZkp7q19f0'',
           r_thumbnailUrl = [], r_title = js ''Soup again'', r_tags = [js ''Snacks'']\<rparr>)],
       groceryDoc = None\<rparr>)"
proof -
  let ?a = "\<lparr>isAuthReady = True, toastMessage = [], showToast = False,
             groceryText = [], isGroceryListEditing = False\<rparr>"
  let ?d1 = "(js ''doc1'',
          \<lparr>r_youtubeUrl = js ''https://youtu.be/dQw4w9WgXcQ'', r_videoId = js ''dQw4w9WgXcQ'',
           r_thumbnailUrl = [], r_title = js ''Pasta'', r_tags = [js ''Dinner'']\<rparr>)"
  let ?d2 = "(js ''doc2'',
          \<lparr>r_youtubeUrl = js ''https://youtu.be/9bZkp7q19f0'', r_videoId = js ''9bZkp7q19f0'',
           r_thumbnailUrl = [], r_title = js ''Soup'', r_tags = [js ''Lunch'']\<rparr>)"
  let ?d3 = "(js ''doc3'',
          \<lparr>r_youtubeUrl = js ''https://www.youtube.com/watch?v=9bZkp7q19f0'',
           r_videoId = js ''9bZkp7q19f0'',
           r_thumbnailUrl = [], r_title = js ''Soup again'', r_tags = [js ''Snacks'']\<rparr>)"
  let ?db = "\<lparr>recipesColl = [?d1, ?d2, ?d3], groceryDoc = None\<rparr>"
  let ?v = "js ''9bZkp7q19f0''"
  have h1: "isAuthReady ?a" by simp
  have d: "distinct (map fst [?d1, ?d2, ?d3])"
    by (simp add: js_def)
  then have h2: "distinct (map fst (recipesColl ?db))" by simp
  have h3: "?v \<in> set (map (\<lambda>d. r_videoId (snd d)) (recipesColl ?db))"
    by simp
  have ne: "js ''dQw4w9WgXcQ'' \<noteq> ?v"
    by (simp add: js_def)
  from delete_first_match[OF h1 h2 h3]
  obtain pre x post where dec: "[?d1, ?d2, ?d3] = pre @ x # post"
    and pre: "list_all (\<lambda>x. r_videoId (snd x) \<noteq> ?v) pre"
    and x: "r_videoId (snd x) = ?v"
    and res: "handleDeleteRecipe True True ?v (?a, ?db) =
             (showActionToast (js ''Recipe Deleted!'') ?a, ?db\<lparr>recipesColl := pre @ post\<rparr>)"
    by auto
  from dec pre x ne have "pre = [?d1] \<and> post = [?d3]"
    by (cases pre; cases "tl pre"; cases "tl (tl pre)") auto
  with res d h1 show ?thesis
    by (simp add: showActionToast_def)
qed

section \<open>Saving and loading the grocery list\<close>

text \<open>
  Claim C8. When the session is ready, saving (the write resolving) stores exactly the
  text of the editor, the empty text included, in the field \<open>content\<close> of the grocery
  document, and a subscription event that delivers that document sets the displayed
  text to exactly the saved text, whatever it showed before.
\<close>

theorem grocery_round_trip:
  assumes "isAuthReady a"
  shows "map_option (\<lambda>flds. flds ''content'') (groceryDoc (snd (handleSaveGroceryList True (a, db))))
           = Some (Some (groceryText a)) \<and>
         groceryText (onGrocerySnapshot (groceryDoc (snd (handleSaveGroceryList True (a, db)))) a')
           = groceryText a"
  using assms by (simp add: handleSaveGroceryList_def onGrocerySnapshot_def)

theorem grocery_round_trip_witness:
  "isAuthReady \<lparr>isAuthReady = True, toastMessage = [], showToast = False,
                 groceryText = js ''eggs, milk'', isGroceryListEditing = True\<rparr> \<and>
   groceryText (onGrocerySnapshot
       (groceryDoc (snd (handleSaveGroceryList True
          (\<lparr>isAuthReady = True, toastMessage = [], showToast = False,
            groceryText = js ''eggs, milk'', isGroceryListEditing = True\<rparr>,
           \<lparr>recipesColl = [], groceryDoc = None\<rparr>))))
       \<lparr>isAuthReady = True, toastMessage = [], showToast = False,
        groceryText = js ''something else'', isGroceryListEditing = False\<rparr>)
     = js ''eggs, milk'' \<and>
   groceryText (onGrocerySnapshot
       (groceryDoc (snd (handleSaveGroceryList True
          (\<lparr>isAuthReady = True, toastMessage = [], showToast = False,
            groceryText = [], isGroceryListEditing = True\<rparr>,
           \<lparr>recipesColl = [], groceryDoc = Some [''content'' \<mapsto> js ''old list'']\<rparr>))))
       \<lparr>isAuthReady = True, toastMessage = [], showToast = False,
        groceryText = js ''something else'', isGroceryListEditing = False\<rparr>)
     = []"
proof -
  let ?a = "\<lparr>isAuthReady = True, toastMessage = [], showToast = False,
             groceryText = js ''eggs, milk'', isGroceryListEditing = True\<rparr>"
  let ?b = "\<lparr>isAuthReady = True, toastMessage = [], showToast = False,
             groceryText = [], isGroceryListEditing = True\<rparr>"
  have h1: "isAuthReady ?a" and h2: "isAuthReady ?b"
    by simp_all
  from grocery_round_trip[OF h1] grocery_round_trip[OF h2] h1 show ?thesis
    by simp
qed

end
